theory Spec2Isabelle
  imports Main
begin

section \<open>Python values\<close>

text \<open>
  The adapter of \<^verbatim>\<open>asgiref/wsgi.py\<close> turns one ASGI HTTP connection into one call of a
  WSGI application. Its data are Python \<^verbatim>\<open>bytes\<close> and \<^verbatim>\<open>str\<close> objects, dictionaries
  and exceptions. A \<^verbatim>\<open>bytes\<close> object is a list of 8-bit characters; a \<^verbatim>\<open>str\<close> is a list
  of Unicode code points, so that the results of \<^verbatim>\<open>str.upper\<close> which leave Latin-1
  (U+039C, U+0178) have a place. A string literal of the source is written
  \<open>pstr ''...''\<close>.
\<close>

type_synonym bytes = "char list"

type_synonym str = "nat list"

definition pstr :: "string \<Rightarrow> str" where
  "pstr s = map of_char s"

text \<open>
  Exceptions are values. \<open>ValueError\<close> carries its message: the text of the source where
  the adapter raises it, the fixed part of the interpreter's message where a builtin does.
  \<open>OtherError\<close> stands for any exception of another class that an application raises or
  hands over, named by a label.
\<close>

datatype exn =
    ValueError string
  | TypeError
  | AttributeError
  | UnicodeDecodeError
  | UnicodeEncodeError
  | OtherError string

text \<open>
  \<^verbatim>\<open>exc_info\<close> is the triple \<^verbatim>\<open>(type, value, traceback)\<close> of \<^verbatim>\<open>sys.exc_info()\<close>: the class by
  its name, the exception object, the traceback by a token.
  \<^verbatim>\<open>e.with_traceback(tb)\<close> stores \<^verbatim>\<open>tb\<close> in the object's \<^verbatim>\<open>__traceback__\<close> slot and returns the
  very same object; tracebacks are no part of an \<open>exn\<close> value, so the result is \<open>e\<close>.
\<close>

type_synonym exc_info = "string \<times> exn \<times> nat"

definition with_traceback :: "exn \<Rightarrow> nat \<Rightarrow> exn" where
  "with_traceback e tb = e"

subsection \<open>Codecs\<close>

text \<open>\<^verbatim>\<open>b.decode("latin1")\<close> never fails: byte \<open>n\<close> is code point \<open>n\<close>.\<close>

definition decode_latin1 :: "bytes \<Rightarrow> str" where
  "decode_latin1 b = map of_char b"

text \<open>\<^verbatim>\<open>b.decode("ascii")\<close> raises on the first byte above 127.\<close>

definition decode_ascii :: "bytes \<Rightarrow> exn + str" where
  "decode_ascii b =
     (if list_all (\<lambda>c. (of_char c :: nat) < 128) b then Inr (map of_char b)
      else Inl UnicodeDecodeError)"

text \<open>\<^verbatim>\<open>s.encode("ascii")\<close> raises on the first code point above 127.\<close>

definition encode_ascii :: "str \<Rightarrow> exn + bytes" where
  "encode_ascii s =
     (if list_all (\<lambda>c. c < 128) s then Inr (map char_of s) else Inl UnicodeEncodeError)"

subsection \<open>String methods\<close>

text \<open>
  \<^verbatim>\<open>str.upper\<close> on one code point below 256, the only ones a Latin-1 decoded header name
  has: the ASCII letters, the micro sign (to Greek capital mu), the sharp s (to two
  capital S), the accented small letters \<open>0xE0\<close> to \<open>0xFE\<close> without the division sign, and
  \<open>y\<close> with diaeresis (to U+0178). Everything else is unchanged.
\<close>

definition upper_latin1 :: "nat \<Rightarrow> str" where
  "upper_latin1 c =
     (if 97 \<le> c \<and> c \<le> 122 then [c - 32]
      else if c = 181 then [924]
      else if c = 223 then [83, 83]
      else if 224 \<le> c \<and> c \<le> 254 \<and> c \<noteq> 247 then [c - 32]
      else if c = 255 then [376]
      else [c])"

definition upper :: "str \<Rightarrow> str" where
  "upper s = concat (map upper_latin1 s)"

text \<open>\<^verbatim>\<open>s.replace(old, new)\<close> for one-character \<^verbatim>\<open>old\<close> and \<^verbatim>\<open>new\<close>.\<close>

definition replace_char :: "nat \<Rightarrow> nat \<Rightarrow> str \<Rightarrow> str" where
  "replace_char old new s = map (\<lambda>c. if c = old then new else c) s"

text \<open>
  \<^verbatim>\<open>s.split(" ", 1)\<close>: the list of one element \<^verbatim>\<open>s\<close> when \<^verbatim>\<open>s\<close> has no space, otherwise
  the text before the first space and the text after it.
\<close>

definition split1 :: "str \<Rightarrow> str list" where
  "split1 s =
     (case dropWhile (\<lambda>c. c \<noteq> 32) s of
        [] \<Rightarrow> [s]
      | _ # rest \<Rightarrow> [takeWhile (\<lambda>c. c \<noteq> 32) s, rest])"

text \<open>\<^verbatim>\<open>str(n)\<close> for an integer, and for \<^verbatim>\<open>None\<close> (the port of a Unix socket).\<close>

fun digits :: "nat \<Rightarrow> str" where
  "digits n = (if n < 10 then [48 + n] else digits (n div 10) @ [48 + n mod 10])"

definition str_of_int :: "int \<Rightarrow> str" where
  "str_of_int i = (if i < 0 then 45 # digits (nat (- i)) else digits (nat i))"

definition str_of_port :: "int option \<Rightarrow> str" where
  "str_of_port p = (case p of None \<Rightarrow> pstr ''None'' | Some i \<Rightarrow> str_of_int i)"

text \<open>
  Two builtins are applied to text that the application chooses freely, and depend on
  the interpreter's Unicode tables: \<^verbatim>\<open>int(s)\<close>, which returns an integer or raises
  \<^verbatim>\<open>ValueError\<close>, and \<^verbatim>\<open>str.lower\<close>. They are parameters of the model.
\<close>

record builtins =
  py_int :: "str \<Rightarrow> int option"
  py_lower :: "str \<Rightarrow> str"

section \<open>Connection scope, messages and environ\<close>

text \<open>
  The ASGI scope is a dictionary; the keys the adapter subscripts are fields, the keys it
  reads with \<^verbatim>\<open>get\<close> or tests with \<^verbatim>\<open>in\<close> are optional fields. \<^verbatim>\<open>server\<close> and \<^verbatim>\<open>client\<close> are
  pairs of a host and a port.
\<close>

record asgi_scope =
  scope_type :: str
  scope_method :: str
  path :: str
  query_string :: bytes
  http_version :: str
  scheme :: "str option"
  server :: "(str \<times> int option) option"
  client :: "(str \<times> int option) option"
  headers :: "(bytes \<times> bytes) list option"

text \<open>The message that \<^verbatim>\<open>receive()\<close> returns: its \<^verbatim>\<open>type\<close> and its optional \<^verbatim>\<open>body\<close>.\<close>

record request_message =
  message_type :: str
  body :: "bytes option"

text \<open>
  The messages handed to \<^verbatim>\<open>send\<close>: \<^verbatim>\<open>http.response.start\<close> with its \<^verbatim>\<open>status\<close> and
  \<^verbatim>\<open>headers\<close>, and \<^verbatim>\<open>http.response.body\<close>, whose keys \<^verbatim>\<open>body\<close> and \<^verbatim>\<open>more_body\<close> may
  be absent.
\<close>

datatype message =
    ResponseStart int "(bytes \<times> bytes) list"
  | ResponseBody "bytes option" "bool option"



fun is_start :: "message \<Rightarrow> bool" where
  "is_start (ResponseStart st hs) = True"
| "is_start (ResponseBody b m) = False"

fun is_body :: "message \<Rightarrow> bool" where
  "is_body (ResponseStart st hs) = False"
| "is_body (ResponseBody b m) = True"

text \<open>
  The values of the environ dictionary: strings, the version pair, the two \<^verbatim>\<open>BytesIO\<close>
  objects by their content, and the flags.
\<close>

datatype env_val =
    EStr str
  | EVersion nat nat
  | EBytesIO bytes
  | EBool bool

type_synonym environ = "str \<rightharpoonup> env_val"

section \<open>The adapter instance\<close>

text \<open>
  The attributes of a \<^verbatim>\<open>WsgiToAsgiInstance\<close>. \<open>response_start\<close> and \<open>scope\<close> do not exist
  until they are assigned (\<open>None\<close>); \<open>response_start\<close> is the \<^verbatim>\<open>http.response.start\<close>
  message of line 111, kept by its \<^verbatim>\<open>status\<close> and \<^verbatim>\<open>headers\<close>. \<open>sent\<close> is the outbound side: the messages that
  \<^verbatim>\<open>sync_send\<close> has delivered, oldest first.
\<close>

record wsgi_instance =
  response_started :: bool
  response_start :: "(int \<times> (bytes \<times> bytes) list) option"
  scope :: "asgi_scope option"
  sent :: "message list"

definition init_instance :: wsgi_instance where
  "init_instance =
     \<lparr>response_started = False, response_start = None, scope = None, sent = []\<rparr>"

definition sync_send :: "message \<Rightarrow> wsgi_instance \<Rightarrow> wsgi_instance" where
  "sync_send m self = self\<lparr>sent := sent self @ [m]\<rparr>"

subsection \<open>build_environ\<close>

definition corrected_name :: "str \<Rightarrow> str" where
  "corrected_name name =
     (if name = pstr ''content-length'' then pstr ''CONTENT_LENGTH''
      else if name = pstr ''content-type'' then pstr ''CONTENT_TYPE''
      else pstr ''HTTP_'' @ replace_char 45 95 (upper name))"

text \<open>
  One round of the header loop. Adding \<^verbatim>\<open>","\<close> to a value that is no string is a
  \<^verbatim>\<open>TypeError\<close>.
\<close>

definition add_header :: "environ \<Rightarrow> bytes \<times> bytes \<Rightarrow> exn + environ" where
  "add_header environ nv =
     (let name = decode_latin1 (fst nv);
          key = corrected_name name;
          val = decode_latin1 (snd nv)
      in case environ key of
           None \<Rightarrow> Inr (environ(key \<mapsto> EStr val))
         | Some (EStr old) \<Rightarrow> Inr (environ(key \<mapsto> EStr (old @ pstr '','' @ val)))
         | Some _ \<Rightarrow> Inl TypeError)"

fun add_headers :: "environ \<Rightarrow> (bytes \<times> bytes) list \<Rightarrow> exn + environ" where
  "add_headers environ [] = Inr environ"
| "add_headers environ (h # hs) =
     (case add_header environ h of
        Inl e \<Rightarrow> Inl e
      | Inr environ' \<Rightarrow> add_headers environ' hs)"

text \<open>The dictionary display of lines 49 to 62, given the decoded query string.\<close>

definition initial_environ :: "asgi_scope \<Rightarrow> request_message \<Rightarrow> str \<Rightarrow> environ" where
  "initial_environ sc message qs =
     [pstr ''REQUEST_METHOD'' \<mapsto> EStr (scope_method sc),
      pstr ''SCRIPT_NAME'' \<mapsto> EStr (pstr ''''),
      pstr ''PATH_INFO'' \<mapsto> EStr (path sc),
      pstr ''QUERY_STRING'' \<mapsto> EStr qs,
      pstr ''SERVER_PROTOCOL'' \<mapsto> EStr (pstr ''HTTP/'' @ http_version sc),
      pstr ''wsgi.version'' \<mapsto> EVersion 1 0,
      pstr ''wsgi.url_scheme'' \<mapsto>
         EStr (case scheme sc of None \<Rightarrow> pstr ''http'' | Some x \<Rightarrow> x),
      pstr ''wsgi.input'' \<mapsto>
         EBytesIO (case body message of None \<Rightarrow> [] | Some b \<Rightarrow> b),
      pstr ''wsgi.errors'' \<mapsto> EBytesIO [],
      pstr ''wsgi.multithread'' \<mapsto> EBool True,
      pstr ''wsgi.multiprocess'' \<mapsto> EBool True,
      pstr ''wsgi.run_once'' \<mapsto> EBool False]"

definition server_entries :: "asgi_scope \<Rightarrow> environ \<Rightarrow> environ" where
  "server_entries sc environ =
     (case server sc of
        Some (host, port) \<Rightarrow>
          environ(pstr ''SERVER_NAME'' \<mapsto> EStr host,
                  pstr ''SERVER_PORT'' \<mapsto> EStr (str_of_port port))
      | None \<Rightarrow>
          environ(pstr ''SERVER_NAME'' \<mapsto> EStr (pstr ''localhost''),
                  pstr ''SERVER_PORT'' \<mapsto> EStr (pstr ''80'')))"

definition client_entries :: "asgi_scope \<Rightarrow> environ \<Rightarrow> environ" where
  "client_entries sc environ =
     (case client sc of
        Some (host, port) \<Rightarrow> environ(pstr ''REMOTE_ADDR'' \<mapsto> EStr host)
      | None \<Rightarrow> environ)"

text \<open>\<^verbatim>\<open>scope.get("headers", [])\<close>\<close>

definition get_headers :: "asgi_scope \<Rightarrow> (bytes \<times> bytes) list" where
  "get_headers sc = (case headers sc of None \<Rightarrow> [] | Some hs \<Rightarrow> hs)"

text \<open>
  \<open>build_environ self sc message\<close>: the header loop reads \<^verbatim>\<open>self.scope\<close>, everything else
  the argument.
\<close>

definition build_environ ::
  "wsgi_instance \<Rightarrow> asgi_scope \<Rightarrow> request_message \<Rightarrow> exn + environ" where
  "build_environ self sc message =
     (case decode_ascii (query_string sc) of
        Inl e \<Rightarrow> Inl e
      | Inr qs \<Rightarrow>
          (let environ = client_entries sc (server_entries sc (initial_environ sc message qs))
           in case scope self of
                None \<Rightarrow> Inl AttributeError
              | Some own \<Rightarrow> add_headers environ (get_headers own)))"

subsection \<open>start_response\<close>

text \<open>The list comprehension of lines 106 to 109.\<close>

fun encode_headers :: "builtins \<Rightarrow> (str \<times> str) list \<Rightarrow> exn + (bytes \<times> bytes) list" where
  "encode_headers B [] = Inr []"
| "encode_headers B ((name, val) # rest) =
     (case encode_ascii (py_lower B name) of
        Inl e \<Rightarrow> Inl e
      | Inr n \<Rightarrow>
          (case encode_ascii val of
             Inl e \<Rightarrow> Inl e
           | Inr v \<Rightarrow>
               (case encode_headers B rest of
                  Inl e \<Rightarrow> Inl e
                | Inr hs \<Rightarrow> Inr ((n, v) # hs))))"

text \<open>
  \<open>start_response\<close> returns what the call does, \<open>Inr ()\<close> for a normal return and \<open>Inl e\<close>
  for a raised \<open>e\<close>, with the instance after the call. Subscripting an absent
  \<^verbatim>\<open>exc_info\<close> is a \<^verbatim>\<open>TypeError\<close>; unpacking a one-element list into two names and a
  failing \<^verbatim>\<open>int\<close> are \<^verbatim>\<open>ValueError\<close>s.
\<close>

definition start_response ::
  "builtins \<Rightarrow> wsgi_instance \<Rightarrow> str \<Rightarrow> (str \<times> str) list \<Rightarrow> exc_info option
     \<Rightarrow> (exn + unit) \<times> wsgi_instance" where
  "start_response B self status response_headers exc_info =
     (if response_started self then
        (case exc_info of
           None \<Rightarrow> (Inl TypeError, self)
         | Some (t, v, tb) \<Rightarrow> (Inl (with_traceback v tb), self))
      else if response_start self \<noteq> None \<and> exc_info = None then
        (Inl (ValueError ''You cannot call start_response a second time without exc_info''),
         self)
      else
        (case split1 status of
           [status_code, reason] \<Rightarrow>
             (case py_int B status_code of
                None \<Rightarrow> (Inl (ValueError ''invalid literal for int() with base 10''), self)
              | Some code \<Rightarrow>
                  (case encode_headers B response_headers of
                     Inl e \<Rightarrow> (Inl e, self)
                   | Inr hs \<Rightarrow>
                       (Inr (), self\<lparr>response_start := Some (code, hs)\<rparr>)))
         | _ \<Rightarrow> (Inl (ValueError ''not enough values to unpack (expected 2, got 1)''), self)))"

subsection \<open>run_wsgi_app\<close>

text \<open>
  What a WSGI application does on one request, seen from the adapter: it calls
  \<^verbatim>\<open>start_response\<close> and goes on according to what the call did, it yields a chunk, its
  iteration ends, or it raises. A function application and a generator differ only in
  when the calls happen relative to the first \<^verbatim>\<open>next\<close>, which the adapter cannot observe.
  The iteration is finite: every path of a \<open>behaviour\<close> ends.
\<close>

datatype behaviour =
    Return
  | Raise exn
  | Yield bytes behaviour
  | CallStartResponse str "(str \<times> str) list" "exc_info option" "exn + unit \<Rightarrow> behaviour"

text \<open>Lines 128 to 130 and 135 to 137: the start message goes out before anything else.\<close>

definition send_start :: "wsgi_instance \<Rightarrow> (exn + unit) \<times> wsgi_instance" where
  "send_start self =
     (if \<not> response_started self then
        (let self = self\<lparr>response_started := True\<rparr>
         in case response_start self of
              None \<Rightarrow> (Inl AttributeError, self)
            | Some (status, hs) \<Rightarrow> (Inr (), sync_send (ResponseStart status hs) self))
      else (Inr (), self))"

text \<open>The body of the \<^verbatim>\<open>for\<close> loop, for one chunk.\<close>

definition loop_body :: "bytes \<Rightarrow> wsgi_instance \<Rightarrow> (exn + unit) \<times> wsgi_instance" where
  "loop_body output self =
     (case send_start self of
        (Inl e, self) \<Rightarrow> (Inl e, self)
      | (Inr u, self) \<Rightarrow> (Inr (), sync_send (ResponseBody (Some output) (Some True)) self))"

text \<open>Lines 134 to 138, after the loop.\<close>

definition close_connection :: "wsgi_instance \<Rightarrow> (exn + unit) \<times> wsgi_instance" where
  "close_connection self =
     (case send_start self of
        (Inl e, self) \<Rightarrow> (Inl e, self)
      | (Inr u, self) \<Rightarrow> (Inr (), sync_send (ResponseBody None None) self))"

text \<open>The \<^verbatim>\<open>for\<close> loop over the application's iterable, then the closing lines.\<close>

primrec iterate ::
  "builtins \<Rightarrow> behaviour \<Rightarrow> wsgi_instance \<Rightarrow> (exn + unit) \<times> wsgi_instance" where
  "iterate B Return self = close_connection self"
| "iterate B (Raise e) self = (Inl e, self)"
| "iterate B (Yield output rest) self =
     (case loop_body output self of
        (Inl e, self') \<Rightarrow> (Inl e, self')
      | (Inr u, self') \<Rightarrow> iterate B rest self')"
| "iterate B (CallStartResponse status response_headers exc_info k) self =
     (case start_response B self status response_headers exc_info of
        (r, self') \<Rightarrow> iterate B (k r) self')"

definition run_wsgi_app ::
  "builtins \<Rightarrow> (environ \<Rightarrow> behaviour) \<Rightarrow> wsgi_instance \<Rightarrow> request_message
     \<Rightarrow> (exn + unit) \<times> wsgi_instance" where
  "run_wsgi_app B wsgi_application self message =
     (case scope self of
        None \<Rightarrow> (Inl AttributeError, self)
      | Some own \<Rightarrow>
          (case build_environ self own message of
             Inl e \<Rightarrow> (Inl e, self)
           | Inr environ \<Rightarrow> iterate B (wsgi_application environ) self))"

subsection \<open>The entry points\<close>

text \<open>\<^verbatim>\<open>WsgiToAsgiInstance.__call__\<close>, with the message that \<^verbatim>\<open>receive()\<close> returns.\<close>

definition instance_call ::
  "builtins \<Rightarrow> (environ \<Rightarrow> behaviour) \<Rightarrow> wsgi_instance \<Rightarrow> asgi_scope \<Rightarrow> request_message
     \<Rightarrow> (exn + unit) \<times> wsgi_instance" where
  "instance_call B wsgi_application self sc message =
     (if scope_type sc \<noteq> pstr ''http'' then
        (Inl (ValueError ''WSGI wrapper received a non-HTTP scope''), self)
      else
        (let self = self\<lparr>scope := Some sc\<rparr>
         in if message_type message \<noteq> pstr ''http.request'' then
              (Inl (ValueError ''WSGI wrapper received a non-HTTP-request message''), self)
            else run_wsgi_app B wsgi_application self message))"

text \<open>\<^verbatim>\<open>WsgiToAsgi.__call__\<close>: a fresh instance for every connection.\<close>

definition wsgi_to_asgi_call ::
  "builtins \<Rightarrow> (environ \<Rightarrow> behaviour) \<Rightarrow> asgi_scope \<Rightarrow> request_message
     \<Rightarrow> (exn + unit) \<times> wsgi_instance" where
  "wsgi_to_asgi_call B wsgi_application sc message =
     instance_call B wsgi_application init_instance sc message"

section \<open>The run, step by step\<close>

text \<open>
  The same loop as a machine, to speak about the instance at every moment of a run: a
  configuration is the rest of the application's behaviour with the instance, or the
  finished call with what it returned or raised.
\<close>

datatype config =
    Running behaviour wsgi_instance
  | Finished "exn + unit" wsgi_instance

fun step :: "builtins \<Rightarrow> config \<Rightarrow> config" where
  "step B (Running Return self) =
     (case close_connection self of (r, self') \<Rightarrow> Finished r self')"
| "step B (Running (Raise e) self) = Finished (Inl e) self"
| "step B (Running (Yield output rest) self) =
     (case loop_body output self of
        (Inl e, self') \<Rightarrow> Finished (Inl e) self'
      | (Inr u, self') \<Rightarrow> Running rest self')"
| "step B (Running (CallStartResponse status response_headers exc_info k) self) =
     (case start_response B self status response_headers exc_info of
        (r, self') \<Rightarrow> Running (k r) self')"
| "step B (Finished r self) = Finished r self"

fun instance_of :: "config \<Rightarrow> wsgi_instance" where
  "instance_of (Running a self) = self"
| "instance_of (Finished r self) = self"

text \<open>
  A log is in order when it is empty, or one start message followed by body messages
  only.
\<close>

fun in_order :: "message list \<Rightarrow> bool" where
  "in_order [] = True"
| "in_order (m # ms) = (is_start m \<and> list_all is_body ms)"

fun config_ok :: "config \<Rightarrow> bool" where
  "config_ok (Running a self) =
     (if response_started self then sent self \<noteq> [] \<and> in_order (sent self)
      else sent self = [])"
| "config_ok (Finished r self) =
     (in_order (sent self) \<and> (if r = Inr () then sent self \<noteq> [] else True))"

section \<open>Applications and inputs to state the properties with\<close>

text \<open>The behaviour that yields the chunks of a list and ends.\<close>

primrec yields :: "bytes list \<Rightarrow> behaviour" where
  "yields [] = Return"
| "yields (c # cs) = Yield c (yields cs)"


text \<open>\<^verbatim>\<open>sep.join(xs)\<close>\<close>

fun join :: "str \<Rightarrow> str list \<Rightarrow> str" where
  "join sep [] = []"
| "join sep [x] = x"
| "join sep (x # y # ys) = x @ sep @ join sep (y # ys)"

text \<open>
  The decoded values of the headers whose name folds to the key \<open>k\<close>, in order of
  arrival.
\<close>

definition header_values :: "str \<Rightarrow> (bytes \<times> bytes) list \<Rightarrow> str list" where
  "header_values k hs =
     map (\<lambda>h. decode_latin1 (snd h))
       (filter (\<lambda>h. corrected_name (decode_latin1 (fst h)) = k) hs)"


text \<open>
  A stand-in for the two builtins, to run the model: \<open>digit_int\<close> agrees with \<^verbatim>\<open>int\<close> on
  the non-empty strings of ASCII digits and rejects every other string (Python accepts
  more: a sign, surrounding white space, underscores between digits);
  \<open>ascii_lower\<close> agrees with \<^verbatim>\<open>str.lower\<close> on ASCII text.
\<close>

definition digit_int :: "str \<Rightarrow> int option" where
  "digit_int s =
     (if s \<noteq> [] \<and> list_all (\<lambda>c. 48 \<le> c \<and> c \<le> 57) s
      then Some (foldl (\<lambda>a c. 10 * a + int (c - 48)) 0 s) else None)"

definition ascii_lower :: "str \<Rightarrow> str" where
  "ascii_lower s = map (\<lambda>c. if 65 \<le> c \<and> c \<le> 90 then c + 32 else c) s"

definition ascii_builtins :: builtins where
  "ascii_builtins = \<lparr>py_int = digit_int, py_lower = ascii_lower\<rparr>"

text \<open>A request with a repeated header and a capitalised \<^verbatim>\<open>Content-Length\<close>.\<close>

definition example_scope :: asgi_scope where
  "example_scope =
     \<lparr>scope_type = pstr ''http'', scope_method = pstr ''GET'', path = pstr ''/'',
      query_string = ''a=1'', http_version = pstr ''1.1'', scheme = None, server = None,
      client = Some (pstr ''10.0.0.1'', Some 1234),
      headers = Some [(''X-Foo'', ''a''), (''X-Foo'', ''b''), (''Content-Length'', ''5'')]\<rparr>"

definition example_request :: request_message where
  "example_request = \<lparr>message_type = pstr ''http.request'', body = None\<rparr>"


text \<open>
  An application that calls \<^verbatim>\<open>start_response("200 OK", [])\<close> and yields two chunks; one
  that raises at once; one that returns an empty iterable without a call.
\<close>

definition hello_app :: "environ \<Rightarrow> behaviour" where
  "hello_app environ =
     CallStartResponse (pstr ''200 OK'') [] None
       (\<lambda>r. case r of Inl e \<Rightarrow> Raise e | Inr u \<Rightarrow> yields [''Hello, '', ''world''])"

definition failing_app :: "environ \<Rightarrow> behaviour" where
  "failing_app environ = Raise (OtherError ''RuntimeError'')"


section \<open>Properties of start_response\<close>

lemma split1_no_space: "32 \<notin> set s \<Longrightarrow> split1 s = [s]"
proof -
  assume "32 \<notin> set s"
  then have d: "dropWhile (\<lambda>c. c \<noteq> 32) s = []" by (induction s) auto
  show ?thesis unfolding split1_def d by simp
qed

lemma split1_space:
  assumes "32 \<in> set s"
  shows "\<exists>b. split1 s = [takeWhile (\<lambda>c. c \<noteq> 32) s, b]"
proof (cases "dropWhile (\<lambda>c. c \<noteq> 32) s")
  case Nil
  then have "\<forall>x\<in>set s. x \<noteq> 32" by (simp only: dropWhile_eq_Nil_conv)
  with assms show ?thesis by blast
next
  case (Cons x rest)
  show ?thesis unfolding split1_def Cons by simp
qed

lemma split1_two:
  assumes "split1 s = [a, b]"
  shows "s = a @ 32 # b \<and> 32 \<notin> set a \<and> a = takeWhile (\<lambda>c. c \<noteq> 32) s"
proof (cases "dropWhile (\<lambda>c. c \<noteq> 32) s")
  case Nil
  with assms show ?thesis by (simp add: split1_def)
next
  case (Cons x rest)
  with assms have a: "a = takeWhile (\<lambda>c. c \<noteq> 32) s" and b: "b = rest"
    by (simp_all add: split1_def)
  have "\<not> (hd (dropWhile (\<lambda>c. c \<noteq> 32) s) \<noteq> 32)"
    using Cons hd_dropWhile [of "\<lambda>c. c \<noteq> 32" s] by simp
  with Cons have x: "x = 32" by simp
  have "s = takeWhile (\<lambda>c. c \<noteq> 32) s @ dropWhile (\<lambda>c. c \<noteq> 32) s" by simp
  with Cons a b x have "s = a @ 32 # b" by simp
  moreover have "32 \<notin> set a" unfolding a by (auto dest: set_takeWhileD)
  ultimately show ?thesis using a by simp
qed

lemma start_response_raise_keeps:
  "fst (start_response B self status response_headers exc_info) \<noteq> Inr () \<Longrightarrow>
   snd (start_response B self status response_headers exc_info) = self"
  by (simp add: start_response_def
      split: if_splits option.splits prod.splits list.splits sum.splits)

text \<open>
  C6. When the start message has been sent (\<open>response_started\<close> holds) and \<^verbatim>\<open>exc_info\<close> is
  given, \<open>start_response\<close> raises the exception object of \<^verbatim>\<open>exc_info\<close> itself, and the
  instance, with the list of sent messages, is as before.
\<close>

theorem start_response_reraises:
  "response_started self \<Longrightarrow>
   start_response B self status response_headers (Some (t, e, tb)) = (Inl e, self)"
  by (simp add: start_response_def with_traceback_def)

theorem start_response_reraises_witness:
  "response_started (init_instance\<lparr>response_started := True\<rparr>) \<and>
   start_response ascii_builtins (init_instance\<lparr>response_started := True\<rparr>)
     (pstr ''500 Internal Server Error'') [] (Some (''KeyError'', OtherError ''KeyError'', 7))
   = (Inl (OtherError ''KeyError''), init_instance\<lparr>response_started := True\<rparr>)"
  using start_response_reraises [of "init_instance\<lparr>response_started := True\<rparr>" ascii_builtins
     "pstr ''500 Internal Server Error''" "[]" "''KeyError''" "OtherError ''KeyError''" 7]
  by (simp add: init_instance_def)

text \<open>
  C7. When a start message has been captured and not sent, and no \<^verbatim>\<open>exc_info\<close> is given,
  \<open>start_response\<close> raises the \<^verbatim>\<open>ValueError\<close> of line 99 and the instance, with the
  captured start message, is as before.
\<close>

theorem start_response_second_call:
  "\<not> response_started self \<Longrightarrow> response_start self = Some m \<Longrightarrow>
   start_response B self status response_headers None =
     (Inl (ValueError ''You cannot call start_response a second time without exc_info''), self)"
  by (simp add: start_response_def)

theorem start_response_second_call_witness:
  "\<not> response_started (init_instance\<lparr>response_start := Some (200, [])\<rparr>) \<and>
   response_start (init_instance\<lparr>response_start := Some (200, [])\<rparr>)
     = Some (200, []) \<and>
   start_response ascii_builtins (init_instance\<lparr>response_start := Some (200, [])\<rparr>)
     (pstr ''404 Not Found'') [] None =
     (Inl (ValueError ''You cannot call start_response a second time without exc_info''),
      init_instance\<lparr>response_start := Some (200, [])\<rparr>)"
  using start_response_second_call
    [of "init_instance\<lparr>response_start := Some (200, [])\<rparr>" "(200, [])"
        ascii_builtins "pstr ''404 Not Found''" "[]"]
  by (simp add: init_instance_def)

text \<open>
  C9. Once \<open>response_started\<close> holds, every call of \<open>start_response\<close> raises and leaves the
  instance as it is; without \<^verbatim>\<open>exc_info\<close> the exception is the \<^verbatim>\<open>TypeError\<close> of subscripting
  \<^verbatim>\<open>None\<close> in line 96, not the \<^verbatim>\<open>ValueError\<close> of line 99.
\<close>

theorem start_response_after_start:
  "response_started self \<Longrightarrow>
   (\<exists>e. fst (start_response B self status response_headers exc_info) = Inl e) \<and>
   snd (start_response B self status response_headers exc_info) = self \<and>
   start_response B self status response_headers None = (Inl TypeError, self)"
  by (simp add: start_response_def split: option.splits prod.splits)

theorem start_response_after_start_witness:
  "response_started (init_instance\<lparr>response_started := True\<rparr>) \<and>
   (\<exists>e. fst (start_response ascii_builtins (init_instance\<lparr>response_started := True\<rparr>)
            (pstr ''200 OK'') [] None) = Inl e) \<and>
   snd (start_response ascii_builtins (init_instance\<lparr>response_started := True\<rparr>)
          (pstr ''200 OK'') [] None) = init_instance\<lparr>response_started := True\<rparr> \<and>
   start_response ascii_builtins (init_instance\<lparr>response_started := True\<rparr>)
     (pstr ''200 OK'') [] None = (Inl TypeError, init_instance\<lparr>response_started := True\<rparr>)"
  using start_response_after_start
    [of "init_instance\<lparr>response_started := True\<rparr>" ascii_builtins "pstr ''200 OK''" "[]" None]
  by (simp add: init_instance_def)

text \<open>
  C10. \<open>start_response\<close> returns normally only for a status that has a space and whose text
  before the first space \<^verbatim>\<open>int\<close> accepts, and then the captured start message carries that
  integer. For a status without a space, or whose text before the first space \<^verbatim>\<open>int\<close>
  rejects, the call raises and the instance is as before: nothing is stored. Whatever the
  reason, a call that raises leaves the instance as it is.
\<close>

theorem start_response_status_code:
  "(fst (start_response B self status response_headers exc_info) = Inr () \<longrightarrow>
      (\<exists>token reason n hs. status = token @ 32 # reason \<and> 32 \<notin> set token \<and>
         py_int B token = Some n \<and>
         response_start (snd (start_response B self status response_headers exc_info))
           = Some (n, hs))) \<and>
   (32 \<notin> set status \<or> py_int B (takeWhile (\<lambda>c. c \<noteq> 32) status) = None \<longrightarrow>
      (\<exists>e. start_response B self status response_headers exc_info = (Inl e, self))) \<and>
   (fst (start_response B self status response_headers exc_info) \<noteq> Inr () \<longrightarrow>
      snd (start_response B self status response_headers exc_info) = self)"
proof (intro conjI impI)
  assume ok: "fst (start_response B self status response_headers exc_info) = Inr ()"
  then obtain a b where sp: "split1 status = [a, b]"
    by (auto simp: start_response_def split: if_splits option.splits list.splits sum.splits)
  from ok sp obtain n where n: "py_int B a = Some n"
    by (auto simp: start_response_def split: if_splits option.splits list.splits sum.splits)
  from ok sp n obtain hs where
    "response_start (snd (start_response B self status response_headers exc_info))
       = Some (n, hs)"
    by (auto simp: start_response_def split: if_splits option.splits list.splits sum.splits)
  with split1_two [OF sp] n
  show "\<exists>token reason n hs. status = token @ 32 # reason \<and> 32 \<notin> set token \<and>
         py_int B token = Some n \<and>
         response_start (snd (start_response B self status response_headers exc_info))
           = Some (n, hs)"
    by blast
next
  assume bad: "32 \<notin> set status \<or> py_int B (takeWhile (\<lambda>c. c \<noteq> 32) status) = None"
  show "\<exists>e. start_response B self status response_headers exc_info = (Inl e, self)"
  proof (cases "32 \<in> set status")
    case False
    then show ?thesis
      by (simp add: start_response_def split1_no_space split: option.splits prod.splits)
  next
    case True
    with bad have none: "py_int B (takeWhile (\<lambda>c. c \<noteq> 32) status) = None" by simp
    from split1_space [OF True] obtain b
      where sp: "split1 status = [takeWhile (\<lambda>c. c \<noteq> 32) status, b]" by blast
    from sp none show ?thesis
      by (simp add: start_response_def split: option.splits prod.splits)
  qed
next
  assume "fst (start_response B self status response_headers exc_info) \<noteq> Inr ()"
  then show "snd (start_response B self status response_headers exc_info) = self"
    by (rule start_response_raise_keeps)
qed

theorem start_response_status_code_witness:
  "fst (start_response ascii_builtins init_instance (pstr ''200 OK'') [] None) = Inr () \<and>
   (\<exists>token reason n hs. pstr ''200 OK'' = token @ 32 # reason \<and> 32 \<notin> set token \<and>
      py_int ascii_builtins token = Some n \<and>
      response_start (snd (start_response ascii_builtins init_instance (pstr ''200 OK'') [] None))
        = Some (n, hs)) \<and>
   32 \<notin> set (pstr ''200'') \<and>
   (\<exists>e. start_response ascii_builtins init_instance (pstr ''200'') [] None = (Inl e, init_instance)) \<and>
   py_int ascii_builtins (takeWhile (\<lambda>c. c \<noteq> 32) (pstr ''OK 200'')) = None \<and>
   (\<exists>e. start_response ascii_builtins init_instance (pstr ''OK 200'') [] None = (Inl e, init_instance))"
proof -
  have ok: "fst (start_response ascii_builtins init_instance (pstr ''200 OK'') [] None) = Inr ()"
    by (simp add: start_response_def init_instance_def split1_def pstr_def ascii_builtins_def
        digit_int_def)
  have nospace: "32 \<notin> set (pstr ''200'')" by (simp add: pstr_def)
  have noint: "py_int ascii_builtins (takeWhile (\<lambda>c. c \<noteq> 32) (pstr ''OK 200'')) = None"
    by (simp add: pstr_def ascii_builtins_def digit_int_def)
  from start_response_status_code [of ascii_builtins init_instance "pstr ''200 OK'' " "[]" None]
    start_response_status_code [of ascii_builtins init_instance "pstr ''200'' " "[]" None]
    start_response_status_code [of ascii_builtins init_instance "pstr ''OK 200'' " "[]" None]
    ok nospace noint
  show ?thesis by blast
qed

section \<open>Properties of build_environ\<close>

lemma foldl_append_prefix:
  "foldl (\<lambda>a v. a @ sep @ v) (p @ y) ys = p @ foldl (\<lambda>a v. a @ sep @ v) y ys"
  by (induction ys arbitrary: y) simp_all

lemma join_foldl: "join sep (x # xs) = foldl (\<lambda>a v. a @ sep @ v) x xs"
proof (induction xs arbitrary: x)
  case Nil
  show ?case by simp
next
  case (Cons y ys)
  have "join sep (x # y # ys) = x @ sep @ foldl (\<lambda>a v. a @ sep @ v) y ys"
    by (simp add: Cons.IH)
  also have "\<dots> = foldl (\<lambda>a v. a @ sep @ v) (x @ sep @ y) ys"
    using foldl_append_prefix [of sep "x @ sep" y ys] by simp
  finally show ?case by simp
qed

lemma corrected_name_head:
  "corrected_name n \<noteq> [] \<and> (hd (corrected_name n) = 67 \<or> hd (corrected_name n) = 72)"
  by (simp add: corrected_name_def pstr_def)

lemma not_corrected_name:
  "k = [] \<or> (hd k \<noteq> 67 \<and> hd k \<noteq> 72) \<Longrightarrow> corrected_name n \<noteq> k"
  using corrected_name_head [of n] by auto

lemma base_environ_header_key:
  "client_entries sc (server_entries sc (initial_environ sc message qs)) (corrected_name n) = None"
proof -
  have ne: "\<And>k. k = [] \<or> (hd k \<noteq> 67 \<and> hd k \<noteq> 72) \<Longrightarrow> (corrected_name n = k) = False"
    using not_corrected_name by blast
  show ?thesis
    by (simp add: client_entries_def server_entries_def initial_environ_def ne pstr_def
        split: option.splits prod.splits)
qed

lemma header_values_Cons:
  "header_values k (h # hs) =
     (if corrected_name (decode_latin1 (fst h)) = k
      then decode_latin1 (snd h) # header_values k hs else header_values k hs)"
  by (simp add: header_values_def)

lemma add_headers_result:
  assumes "\<forall>n. env (corrected_name n) = None \<or> (\<exists>s. env (corrected_name n) = Some (EStr s))"
  shows "\<exists>env'. add_headers env hs = Inr env' \<and>
           (\<forall>k. env' k =
              (case header_values k hs of
                 [] \<Rightarrow> env k
               | v # vs \<Rightarrow>
                   Some (EStr (case env k of
                                 Some (EStr old) \<Rightarrow> foldl (\<lambda>a v. a @ pstr '','' @ v) old (v # vs)
                               | _ \<Rightarrow> foldl (\<lambda>a v. a @ pstr '','' @ v) v vs))))"
  using assms
proof (induction hs arbitrary: env)
  case Nil
  show ?case by (simp add: header_values_def)
next
  case (Cons h hs)
  define key where "key = corrected_name (decode_latin1 (fst h))"
  define val where "val = decode_latin1 (snd h)"
  define x where "x = (case env key of Some (EStr old) \<Rightarrow> old @ pstr '','' @ val | _ \<Rightarrow> val)"
  define env1 where "env1 = env(key \<mapsto> EStr x)"
  from Cons.prems have at_key: "env key = None \<or> (\<exists>s. env key = Some (EStr s))"
    unfolding key_def by blast
  then have step: "add_header env h = Inr env1"
    by (auto simp: add_header_def Let_def key_def [symmetric] val_def [symmetric] env1_def x_def)
  have "\<forall>n. env1 (corrected_name n) = None \<or> (\<exists>s. env1 (corrected_name n) = Some (EStr s))"
    using Cons.prems by (simp add: env1_def)
  from Cons.IH [OF this] obtain env' where
    run: "add_headers env1 hs = Inr env'" and
    look: "\<And>k. env' k =
              (case header_values k hs of
                 [] \<Rightarrow> env1 k
               | v # vs \<Rightarrow>
                   Some (EStr (case env1 k of
                                 Some (EStr old) \<Rightarrow> foldl (\<lambda>a v. a @ pstr '','' @ v) old (v # vs)
                               | _ \<Rightarrow> foldl (\<lambda>a v. a @ pstr '','' @ v) v vs)))"
    by blast
  have "env' k =
              (case header_values k (h # hs) of
                 [] \<Rightarrow> env k
               | v # vs \<Rightarrow>
                   Some (EStr (case env k of
                                 Some (EStr old) \<Rightarrow> foldl (\<lambda>a v. a @ pstr '','' @ v) old (v # vs)
                               | _ \<Rightarrow> foldl (\<lambda>a v. a @ pstr '','' @ v) v vs)))" for k
  proof (cases "key = k")
    case False
    then have same: "env1 k = env k" by (simp add: env1_def)
    from False have "header_values k (h # hs) = header_values k hs"
      by (simp add: header_values_Cons key_def [symmetric])
    then show ?thesis
      using look [of k] unfolding same by simp
  next
    case True
    have "env' k = Some (EStr (foldl (\<lambda>a v. a @ pstr '','' @ v) x (header_values k hs)))"
      using look [of k] True by (simp add: env1_def split: list.splits)
    moreover have "env k = None \<or> (\<exists>s. env k = Some (EStr s))"
      using at_key True by simp
    ultimately show ?thesis
      using True
      by (auto simp: header_values_Cons key_def [symmetric] val_def [symmetric] x_def)
  qed
  with step run show ?case by simp
qed

lemma build_environ_result:
  assumes "scope self = Some own"
    and "list_all (\<lambda>c. (of_char c :: nat) < 128) (query_string sc)"
  shows "\<exists>environ. build_environ self sc message = Inr environ \<and>
           (\<forall>k. environ k =
              (case header_values k (get_headers own) of
                 [] \<Rightarrow> client_entries sc (server_entries sc
                         (initial_environ sc message (map of_char (query_string sc)))) k
               | v # vs \<Rightarrow> Some (EStr (join (pstr '','') (v # vs)))))"
proof -
  let ?base = "client_entries sc (server_entries sc
                 (initial_environ sc message (map of_char (query_string sc))))"
  have none: "\<forall>n. ?base (corrected_name n) = None \<or> (\<exists>s. ?base (corrected_name n) = Some (EStr s))"
    by (simp add: base_environ_header_key)
  from add_headers_result [OF none, of "get_headers own"] obtain env' where
    run: "add_headers ?base (get_headers own) = Inr env'" and
    look: "\<And>k. env' k =
              (case header_values k (get_headers own) of
                 [] \<Rightarrow> ?base k
               | v # vs \<Rightarrow>
                   Some (EStr (case ?base k of
                                 Some (EStr old) \<Rightarrow> foldl (\<lambda>a v. a @ pstr '','' @ v) old (v # vs)
                               | _ \<Rightarrow> foldl (\<lambda>a v. a @ pstr '','' @ v) v vs)))"
    by blast
  have "env' k = (case header_values k (get_headers own) of
                 [] \<Rightarrow> ?base k
               | v # vs \<Rightarrow> Some (EStr (join (pstr '','') (v # vs))))" for k
  proof (cases "header_values k (get_headers own)")
    case Nil
    with look [of k] show ?thesis by simp
  next
    case (Cons v vs)
    then have "v \<in> set (header_values k (get_headers own))" by simp
    then obtain h where "corrected_name (decode_latin1 (fst h)) = k"
      by (auto simp: header_values_def)
    then have "?base k = None"
      using base_environ_header_key
        [of sc message "map of_char (query_string sc)" "decode_latin1 (fst h)"]
      by simp
    with look [of k] Cons show ?thesis by (simp add: join_foldl)
  qed
  with run assms show ?thesis
    by (simp add: build_environ_def decode_ascii_def)
qed




















section \<open>Properties of the run\<close>

lemma send_start_captured:
  "response_start s = Some (st, hs) \<Longrightarrow>
   send_start s =
     (Inr (), s\<lparr>response_started := True,
                sent := sent s @ (if response_started s then [] else [ResponseStart st hs])\<rparr>)"
  by (simp add: send_start_def sync_send_def Let_def)

lemma iterate_yields:
  "response_start s = Some (st, hs) \<Longrightarrow>
   iterate B (yields cs) s =
     (Inr (), s\<lparr>response_started := True,
                sent := sent s @ (if response_started s then [] else [ResponseStart st hs]) @
                        map (\<lambda>c. ResponseBody (Some c) (Some True)) cs @
                        [ResponseBody None None]\<rparr>)"
proof (induction cs arbitrary: s)
  case Nil
  then show ?case
    by (simp add: close_connection_def send_start_captured sync_send_def)
next
  case (Cons c cs)
  let ?s' = "s\<lparr>response_started := True,
               sent := sent s @ (if response_started s then [] else [ResponseStart st hs]) @
                       [ResponseBody (Some c) (Some True)]\<rparr>"
  from Cons.prems have body: "loop_body c s = (Inr (), ?s')"
    by (simp add: loop_body_def send_start_captured sync_send_def)
  from Cons.prems have "response_start ?s' = Some (st, hs)" by simp
  from Cons.IH [OF this] body show ?case by simp
qed

lemma split1_200_OK: "split1 (pstr ''200 OK'') = [pstr ''200'', pstr ''OK'']"
  by (simp add: split1_def pstr_def)

lemma start_then_yields_run:
  assumes "scope_type sc = pstr ''http''"
    and "message_type message = pstr ''http.request''"
    and "list_all (\<lambda>c. (of_char c :: nat) < 128) (query_string sc)"
    and "py_int B (pstr ''200'') = Some 200"
    and "\<forall>environ. \<exists>exc_info k.
           wsgi_application environ = CallStartResponse (pstr ''200 OK'') [] exc_info k \<and>
           k (Inr ()) = yields chunks"
  shows "wsgi_to_asgi_call B wsgi_application sc message =
     (Inr (), \<lparr>response_started = True, response_start = Some (200, []), scope = Some sc,
               sent = ResponseStart 200 [] #
                      map (\<lambda>c. ResponseBody (Some c) (Some True)) chunks @
                      [ResponseBody None None]\<rparr>)"
proof -
  let ?s0 = "init_instance\<lparr>scope := Some sc\<rparr>"
  let ?s1 = "?s0\<lparr>response_start := Some (200, [])\<rparr>"
  have "scope ?s0 = Some sc" by simp
  from build_environ_result [OF this assms(3), of message] obtain environ where
    env: "build_environ ?s0 sc message = Inr environ" by blast
  from assms(5) obtain exc_info k where
    app: "wsgi_application environ = CallStartResponse (pstr ''200 OK'') [] exc_info k" and
    k: "k (Inr ()) = yields chunks" by blast
  have start: "start_response B ?s0 (pstr ''200 OK'') [] exc_info = (Inr (), ?s1)"
    by (simp add: start_response_def init_instance_def split1_200_OK assms(4))
  have "response_start ?s1 = Some (200, [])" by simp
  from iterate_yields [OF this, of B chunks]
  have rest: "iterate B (yields chunks) ?s1 =
     (Inr (), \<lparr>response_started = True, response_start = Some (200, []), scope = Some sc,
               sent = ResponseStart 200 [] #
                      map (\<lambda>c. ResponseBody (Some c) (Some True)) chunks @
                      [ResponseBody None None]\<rparr>)"
    by (simp add: init_instance_def)
  show ?thesis
    using assms(1,2) env app k start rest
    by (simp add: wsgi_to_asgi_call_def instance_call_def run_wsgi_app_def Let_def)
qed




lemma hello_app_run:
  "wsgi_to_asgi_call ascii_builtins hello_app example_scope example_request =
     (Inr (), \<lparr>response_started = True, response_start = Some (200, []),
               scope = Some example_scope,
               sent = [ResponseStart 200 [], ResponseBody (Some ''Hello, '') (Some True),
                       ResponseBody (Some ''world'') (Some True), ResponseBody None None]\<rparr>)"
proof -
  have a: "scope_type example_scope = pstr ''http''" by (simp add: example_scope_def)
  have b: "message_type example_request = pstr ''http.request''"
    by (simp add: example_request_def)
  have c: "list_all (\<lambda>c. (of_char c :: nat) < 128) (query_string example_scope)"
    by (simp add: example_scope_def)
  have d: "py_int ascii_builtins (pstr ''200'') = Some 200"
    by (simp add: ascii_builtins_def digit_int_def pstr_def)
  have e: "\<forall>environ. \<exists>exc_info k.
      hello_app environ = CallStartResponse (pstr ''200 OK'') [] exc_info k \<and>
      k (Inr ()) = yields [''Hello, '', ''world'']"
    by (simp add: hello_app_def)
  from start_then_yields_run [OF a b c d e] show ?thesis by simp
qed

lemma example_environ:
  "\<exists>environ. build_environ (init_instance\<lparr>scope := Some example_scope\<rparr>)
      example_scope example_request = Inr environ"
proof -
  have "scope (init_instance\<lparr>scope := Some example_scope\<rparr>) = Some example_scope" by simp
  moreover have "list_all (\<lambda>c. (of_char c :: nat) < 128) (query_string example_scope)"
    by (simp add: example_scope_def)
  ultimately show ?thesis
    using build_environ_result [of _ example_scope example_scope example_request] by blast
qed

lemma failing_app_run:
  "wsgi_to_asgi_call ascii_builtins failing_app example_scope example_request =
     (Inl (OtherError ''RuntimeError''), init_instance\<lparr>scope := Some example_scope\<rparr>)"
proof -
  from example_environ obtain environ where
    "build_environ (init_instance\<lparr>scope := Some example_scope\<rparr>)
      example_scope example_request = Inr environ" by blast
  moreover have "scope_type example_scope = pstr ''http''" by (simp add: example_scope_def)
  moreover have "message_type example_request = pstr ''http.request''"
    by (simp add: example_request_def)
  ultimately show ?thesis
    by (simp add: wsgi_to_asgi_call_def instance_call_def run_wsgi_app_def Let_def
        failing_app_def)
qed




lemma start_response_keeps:
  "sent (snd (start_response B s status hs ei)) = sent s \<and>
   response_started (snd (start_response B s status hs ei)) = response_started s"
  by (simp add: start_response_def split: option.splits prod.splits list.splits sum.splits)

lemma in_order_snoc_body:
  "in_order log \<Longrightarrow> log \<noteq> [] \<Longrightarrow> in_order (log @ [ResponseBody b m])"
  by (cases log) simp_all

lemma send_start_ok:
  assumes "config_ok (Running a s)" and "send_start s = (r, s')"
  shows "in_order (sent s') \<and> response_started s' \<and> (r = Inr () \<longrightarrow> sent s' \<noteq> [])"
proof (cases "response_started s")
  case True
  with assms show ?thesis by (simp add: send_start_def)
next
  case False
  with assms have empty: "sent s = []" by simp
  show ?thesis
  proof (cases "response_start s")
    case None
    with False assms(2) empty show ?thesis by (auto simp: send_start_def Let_def)
  next
    case (Some m)
    with False assms(2) empty show ?thesis
      by (cases m) (auto simp: send_start_def Let_def sync_send_def)
  qed
qed

lemma step_ok: "config_ok c \<Longrightarrow> config_ok (step B c)"
proof (cases c)
  case (Finished r s)
  assume "config_ok c"
  with Finished show ?thesis by simp
next
  case (Running a s)
  assume ok: "config_ok c"
  show ?thesis
  proof (cases a)
    case Return
    obtain r s' where st: "send_start s = (r, s')" by (cases "send_start s")
    from send_start_ok [OF ok [unfolded Running] st] st Running Return show ?thesis
      by (cases r) (simp_all add: close_connection_def sync_send_def in_order_snoc_body)
  next
    case (Raise e)
    with Running ok show ?thesis by (simp split: if_splits)
  next
    case (Yield chunk rest)
    obtain r s' where st: "send_start s = (r, s')" by (cases "send_start s")
    from send_start_ok [OF ok [unfolded Running] st] st Running Yield show ?thesis
      by (cases r) (simp_all add: loop_body_def sync_send_def in_order_snoc_body)
  next
    case (CallStartResponse status hs ei k)
    obtain r s' where st: "start_response B s status hs ei = (r, s')"
      by (cases "start_response B s status hs ei")
    with start_response_keeps [of B s status hs ei]
    have "sent s' = sent s" "response_started s' = response_started s" by simp_all
    with ok Running CallStartResponse st show ?thesis by simp
  qed
qed

lemma steps_ok: "config_ok c \<Longrightarrow> config_ok ((step B ^^ n) c)"
  by (induction n) (simp_all add: step_ok)

lemma step_started:
  "response_started (instance_of c) \<Longrightarrow> response_started (instance_of (step B c))"
proof (cases c)
  case (Finished r s)
  assume "response_started (instance_of c)"
  with Finished show ?thesis by simp
next
  case (Running a s)
  assume "response_started (instance_of c)"
  with Running have started: "response_started s" by simp
  show ?thesis
  proof (cases a)
    case (CallStartResponse status hs ei k)
    obtain r s' where st: "start_response B s status hs ei = (r, s')"
      by (cases "start_response B s status hs ei")
    with start_response_keeps [of B s status hs ei] started
    have "response_started s'" by simp
    with Running CallStartResponse st show ?thesis by simp
  qed (use Running started in
      \<open>simp_all add: close_connection_def loop_body_def send_start_def sync_send_def\<close>)
qed

lemma steps_started:
  "response_started (instance_of c) \<Longrightarrow> response_started (instance_of ((step B ^^ n) c))"
  by (induction n) (simp_all add: step_started)

lemma steps_finish:
  "\<exists>n. (step B ^^ n) (Running a s) = Finished (fst (iterate B a s)) (snd (iterate B a s))"
proof (induction a arbitrary: s)
  case Return
  have "(step B ^^ 1) (Running Return s) =
          Finished (fst (iterate B Return s)) (snd (iterate B Return s))"
    by (simp split: prod.splits)
  then show ?case by blast
next
  case (Raise e)
  have "(step B ^^ 1) (Running (Raise e) s) =
          Finished (fst (iterate B (Raise e) s)) (snd (iterate B (Raise e) s))"
    by simp
  then show ?case by blast
next
  case (Yield chunk rest)
  obtain r s' where lb: "loop_body chunk s = (r, s')" by (cases "loop_body chunk s")
  show ?case
  proof (cases r)
    case (Inl e)
    with lb have "(step B ^^ 1) (Running (Yield chunk rest) s) =
          Finished (fst (iterate B (Yield chunk rest) s)) (snd (iterate B (Yield chunk rest) s))"
      by simp
    then show ?thesis by blast
  next
    case (Inr u)
    from Yield.IH [of s'] obtain n where
      n: "(step B ^^ n) (Running rest s') = Finished (fst (iterate B rest s')) (snd (iterate B rest s'))"
      by blast
    from lb Inr have "step B (Running (Yield chunk rest) s) = Running rest s'" by simp
    with n lb Inr have "(step B ^^ Suc n) (Running (Yield chunk rest) s) =
          Finished (fst (iterate B (Yield chunk rest) s)) (snd (iterate B (Yield chunk rest) s))"
      by (simp add: funpow_swap1)
    then show ?thesis by blast
  qed
next
  case (CallStartResponse status hs ei k)
  obtain r s' where st: "start_response B s status hs ei = (r, s')"
    by (cases "start_response B s status hs ei")
  have "k r \<in> range k" by simp
  from CallStartResponse.IH [OF this, of s'] obtain n where
    n: "(step B ^^ n) (Running (k r) s') = Finished (fst (iterate B (k r) s')) (snd (iterate B (k r) s'))"
    by blast
  from st have "step B (Running (CallStartResponse status hs ei k) s) = Running (k r) s'" by simp
  with n st have "(step B ^^ Suc n) (Running (CallStartResponse status hs ei k) s) =
        Finished (fst (iterate B (CallStartResponse status hs ei k) s))
                 (snd (iterate B (CallStartResponse status hs ei k) s))"
    by (simp add: funpow_swap1)
  then show ?case by blast
qed

lemma in_order_bodies:
  assumes "in_order log" and "i < length log" and "is_body (log ! i)"
  shows "\<exists>j<i. is_start (log ! j)"
proof (cases log)
  case Nil
  with assms show ?thesis by simp
next
  case (Cons m ms)
  with assms have "is_start m" by simp
  moreover have "i \<noteq> 0"
  proof
    assume "i = 0"
    with Cons assms(3) \<open>is_start m\<close> show False by (cases m) simp_all
  qed
  ultimately show ?thesis using Cons by (intro exI [of _ 0]) simp
qed

lemma in_order_starts:
  assumes "in_order log"
  shows "length (filter is_start log) = (if log = [] then 0 else 1)"
proof (cases log)
  case Nil
  then show ?thesis by simp
next
  case (Cons m ms)
  with assms have m: "is_start m" and ms: "list_all is_body ms" by simp_all
  have "filter is_start ms = []"
  proof -
    have "\<And>x. is_body x \<Longrightarrow> \<not> is_start x" by (case_tac x) simp_all
    with ms show ?thesis by (auto simp: filter_empty_conv list_all_iff)
  qed
  with m Cons show ?thesis by simp
qed

lemma call_cases:
  "(\<exists>e s. wsgi_to_asgi_call B wsgi_application sc message = (Inl e, s) \<and> sent s = []) \<or>
   (\<exists>environ. scope_type sc = pstr ''http'' \<and> message_type message = pstr ''http.request'' \<and>
      build_environ (init_instance\<lparr>scope := Some sc\<rparr>) sc message = Inr environ \<and>
      wsgi_to_asgi_call B wsgi_application sc message =
        iterate B (wsgi_application environ) (init_instance\<lparr>scope := Some sc\<rparr>))"
  by (cases "build_environ (init_instance\<lparr>scope := Some sc\<rparr>) sc message")
     (simp_all add: wsgi_to_asgi_call_def instance_call_def run_wsgi_app_def Let_def
        init_instance_def)

lemma fresh_ok: "config_ok (Running a (init_instance\<lparr>scope := Some sc\<rparr>))"
  by (simp add: init_instance_def)

lemma finished_log:
  assumes "config_ok (Finished r s)"
  shows "in_order (sent s) \<and> (r = Inr () \<longrightarrow> length (filter is_start (sent s)) = 1)"
  using assms in_order_starts [of "sent s"] by (auto split: if_splits)

lemma call_log:
  "in_order (sent (snd (wsgi_to_asgi_call B wsgi_application sc message))) \<and>
   (fst (wsgi_to_asgi_call B wsgi_application sc message) = Inr () \<longrightarrow>
      length (filter is_start (sent (snd (wsgi_to_asgi_call B wsgi_application sc message)))) = 1)"
proof -
  from call_cases [of B wsgi_application sc message] show ?thesis
  proof (elim disjE exE conjE)
    fix e s
    assume "wsgi_to_asgi_call B wsgi_application sc message = (Inl e, s)" and "sent s = []"
    then show ?thesis by simp
  next
    fix environ
    let ?s0 = "init_instance\<lparr>scope := Some sc\<rparr>"
    assume run: "wsgi_to_asgi_call B wsgi_application sc message =
        iterate B (wsgi_application environ) ?s0"
    from steps_finish [of B "wsgi_application environ" ?s0] obtain n where
      n: "(step B ^^ n) (Running (wsgi_application environ) ?s0) =
            Finished (fst (iterate B (wsgi_application environ) ?s0))
                     (snd (iterate B (wsgi_application environ) ?s0))"
      by blast
    have "config_ok ((step B ^^ n) (Running (wsgi_application environ) ?s0))"
      by (rule steps_ok [OF fresh_ok])
    with n have "config_ok (Finished (fst (iterate B (wsgi_application environ) ?s0))
                              (snd (iterate B (wsgi_application environ) ?s0)))"
      by simp
    from finished_log [OF this] run show ?thesis by simp
  qed
qed

text \<open>
  C3, as the code has it. At every moment of a run on a fresh instance, and when the
  call has ended, every body message in the list of sent messages has the start message
  before it, the start message occurs at most once, and \<open>response_started\<close>, once true,
  stays true. When the call returns normally the start message has been sent exactly once.
  The machine of \<open>step\<close> ends in what the call returns.
\<close>

theorem response_order:
  "(\<forall>n. let c = (step B ^^ n) (Running a (init_instance\<lparr>scope := Some sc\<rparr>));
            log = sent (instance_of c)
        in (\<forall>i<length log. is_body (log ! i) \<longrightarrow> (\<exists>j<i. is_start (log ! j))) \<and>
           length (filter is_start log) \<le> 1 \<and>
           (\<forall>m. response_started (instance_of c) \<longrightarrow>
                response_started (instance_of ((step B ^^ m) c)))) \<and>
   (let final = wsgi_to_asgi_call B wsgi_application sc message;
        log = sent (snd final)
    in (\<forall>i<length log. is_body (log ! i) \<longrightarrow> (\<exists>j<i. is_start (log ! j))) \<and>
       length (filter is_start log) \<le> 1 \<and>
       (fst final = Inr () \<longrightarrow> length (filter is_start log) = 1) \<and>
       (\<forall>environ. scope_type sc = pstr ''http'' \<and>
          message_type message = pstr ''http.request'' \<and>
          build_environ (init_instance\<lparr>scope := Some sc\<rparr>) sc message = Inr environ \<longrightarrow>
          (\<exists>n. (step B ^^ n)
                 (Running (wsgi_application environ) (init_instance\<lparr>scope := Some sc\<rparr>))
               = Finished (fst final) (snd final))))"
proof (intro conjI allI)
  fix n
  let ?c = "(step B ^^ n) (Running a (init_instance\<lparr>scope := Some sc\<rparr>))"
  have ok: "config_ok ?c" by (rule steps_ok [OF fresh_ok])
  have ord: "in_order (sent (instance_of ?c))"
    using ok by (cases ?c) (simp_all split: if_splits)
  have bodies: "\<forall>i<length (sent (instance_of ?c)). is_body (sent (instance_of ?c) ! i) \<longrightarrow>
      (\<exists>j<i. is_start (sent (instance_of ?c) ! j))"
    using in_order_bodies [OF ord] by blast
  have starts: "length (filter is_start (sent (instance_of ?c))) \<le> 1"
    using in_order_starts [OF ord] by simp
  have keeps: "\<forall>m. response_started (instance_of ?c) \<longrightarrow>
      response_started (instance_of ((step B ^^ m) ?c))"
    using steps_started by blast
  from bodies starts keeps
  show "let c = ?c; log = sent (instance_of c)
        in (\<forall>i<length log. is_body (log ! i) \<longrightarrow> (\<exists>j<i. is_start (log ! j))) \<and>
           length (filter is_start log) \<le> 1 \<and>
           (\<forall>m. response_started (instance_of c) \<longrightarrow>
                response_started (instance_of ((step B ^^ m) c)))"
    unfolding Let_def by (intro conjI)
next
  let ?final = "wsgi_to_asgi_call B wsgi_application sc message"
  let ?s0 = "init_instance\<lparr>scope := Some sc\<rparr>"
  from call_log [of B wsgi_application sc message]
  have ord: "in_order (sent (snd ?final))"
    and once: "fst ?final = Inr () \<longrightarrow> length (filter is_start (sent (snd ?final))) = 1"
    by simp_all
  have bodies: "\<forall>i<length (sent (snd ?final)). is_body (sent (snd ?final) ! i) \<longrightarrow>
      (\<exists>j<i. is_start (sent (snd ?final) ! j))"
    using in_order_bodies [OF ord] by blast
  have starts: "length (filter is_start (sent (snd ?final))) \<le> 1"
    using in_order_starts [OF ord] by simp
  have machine: "\<forall>environ. scope_type sc = pstr ''http'' \<and>
          message_type message = pstr ''http.request'' \<and>
          build_environ ?s0 sc message = Inr environ \<longrightarrow>
          (\<exists>n. (step B ^^ n) (Running (wsgi_application environ) ?s0)
               = Finished (fst ?final) (snd ?final))"
  proof (intro allI impI)
    fix environ
    assume "scope_type sc = pstr ''http'' \<and> message_type message = pstr ''http.request'' \<and>
          build_environ ?s0 sc message = Inr environ"
    then have "?final = iterate B (wsgi_application environ) ?s0"
      by (simp add: wsgi_to_asgi_call_def instance_call_def run_wsgi_app_def Let_def)
    with steps_finish [of B "wsgi_application environ" ?s0]
    show "\<exists>n. (step B ^^ n) (Running (wsgi_application environ) ?s0)
               = Finished (fst ?final) (snd ?final)"
      by simp
  qed
  from bodies starts once machine
  show "let final = ?final; log = sent (snd final)
    in (\<forall>i<length log. is_body (log ! i) \<longrightarrow> (\<exists>j<i. is_start (log ! j))) \<and>
       length (filter is_start log) \<le> 1 \<and>
       (fst final = Inr () \<longrightarrow> length (filter is_start log) = 1) \<and>
       (\<forall>environ. scope_type sc = pstr ''http'' \<and>
          message_type message = pstr ''http.request'' \<and>
          build_environ ?s0 sc message = Inr environ \<longrightarrow>
          (\<exists>n. (step B ^^ n) (Running (wsgi_application environ) ?s0)
               = Finished (fst final) (snd final)))"
    unfolding Let_def by (intro conjI)
qed

theorem response_order_witness:
  "fst (wsgi_to_asgi_call ascii_builtins hello_app example_scope example_request) = Inr () \<and>
   length (filter is_start
     (sent (snd (wsgi_to_asgi_call ascii_builtins hello_app example_scope example_request)))) = 1 \<and>
   is_body
     (sent (snd (wsgi_to_asgi_call ascii_builtins hello_app example_scope example_request)) ! 1) \<and>
   (\<exists>j<1. is_start
     (sent (snd (wsgi_to_asgi_call ascii_builtins hello_app example_scope example_request)) ! j))"
proof -
  let ?final = "wsgi_to_asgi_call ascii_builtins hello_app example_scope example_request"
  have a: "fst ?final = Inr ()" by (simp add: hello_app_run)
  have b: "1 < length (sent (snd ?final))" by (simp add: hello_app_run)
  have c: "is_body (sent (snd ?final) ! 1)" by (simp add: hello_app_run)
  from response_order [of ascii_builtins Return example_scope hello_app example_request]
  have "(\<forall>i<length (sent (snd ?final)). is_body (sent (snd ?final) ! i) \<longrightarrow>
           (\<exists>j<i. is_start (sent (snd ?final) ! j))) \<and>
        (fst ?final = Inr () \<longrightarrow> length (filter is_start (sent (snd ?final))) = 1)"
    unfolding Let_def by (elim conjE) (intro conjI)
  with a b c show ?thesis by blast
qed

text \<open>
  The claim C3 as the specification states it fails for a run that ends in an exception
  before the first chunk: the start message is then sent zero times.
\<close>

theorem failing_app_counterexample:
  "fst (wsgi_to_asgi_call ascii_builtins failing_app example_scope example_request)
     = Inl (OtherError ''RuntimeError'') \<and>
   length (filter is_start
     (sent (snd (wsgi_to_asgi_call ascii_builtins failing_app example_scope example_request))))
     = 0"
  by (simp add: failing_app_run init_instance_def)

end
